theory Spec2Isabelle
  imports Complex_Main "HOL-Library.Word"
begin

unbundle bit_operations_syntax

section \<open>The seeded generator \<open>createSeededRandom\<close>\<close>

text \<open>
  JavaScript numbers that hold integers are modelled as \<open>int\<close>; the 32-bit
  operators \<open>|\<close>, \<open>^\<close>, \<open>>>>\<close> and \<open>Math.imul\<close> first convert their operands
  with ToInt32 (reduction modulo \<open>2^32\<close>) and work on \<open>32 word\<close>.
\<close>

definition ToInt32 :: "int \<Rightarrow> 32 word" where
  "ToInt32 n = word_of_int n"

definition imul :: "32 word \<Rightarrow> 32 word \<Rightarrow> 32 word" where
  "imul a b = a * b"

definition ushr :: "32 word \<Rightarrow> nat \<Rightarrow> 32 word" where
  "ushr a n = drop_bit n a"

text \<open>
  One call of the closure returned by \<open>createSeededRandom\<close>. The argument is the
  current value of the captured variable \<open>seed\<close>; the result is the returned
  number and the value \<open>seed\<close> holds afterwards. The additions are JavaScript
  number additions of two 32-bit values (exact), whose result the following
  \<open>| 0\<close> or \<open>^ t\<close> converts back with ToInt32.
\<close>

definition mulberry :: "int \<Rightarrow> real \<times> int" where
  "mulberry seed =
     (let s0 = ToInt32 seed;
          s1 = ToInt32 (sint s0 + 0x6d2b79f5);
          t1 = imul (s1 XOR ushr s1 15) (1 OR s1);
          t2 = ToInt32 (sint t1 + sint (imul (t1 XOR ushr t1 7) (61 OR t1))) XOR t1
      in (real_of_int (uint (t2 XOR ushr t2 14)) / 4294967296, sint s1))"

text \<open>
  Every call of \<open>createSeededRandom\<close> creates a closure with a variable \<open>seed\<close>
  of its own. The store maps a closure to the value of its variable.
\<close>

record gen_heap =
  seed_cell :: "nat \<Rightarrow> int"
  fresh :: nat

definition createSeededRandom :: "int \<Rightarrow> gen_heap \<Rightarrow> nat \<times> gen_heap" where
  "createSeededRandom seed h =
     (fresh h, h\<lparr>seed_cell := (seed_cell h)(fresh h := seed), fresh := Suc (fresh h)\<rparr>)"

definition random_call :: "nat \<Rightarrow> gen_heap \<Rightarrow> real \<times> gen_heap" where
  "random_call g h =
     (let (r, s) = mulberry (seed_cell h g)
      in (r, h\<lparr>seed_cell := (seed_cell h)(g := s)\<rparr>))"

text \<open>The results of \<open>n\<close> successive calls of closure \<open>g\<close>, in call order.\<close>

fun draws :: "nat \<Rightarrow> nat \<Rightarrow> gen_heap \<Rightarrow> real list \<times> gen_heap" where
  "draws 0 g h = ([], h)"
| "draws (Suc n) g h =
     (let (r, h1) = random_call g h;
          (rs, h2) = draws n g h1
      in (r # rs, h2))"

section \<open>The noise field and the rock mesh\<close>

text \<open>
  Modelled from the spec: \<open>createNoise3D\<close> of the simplex-noise package is not part
  of the repository. Section 4.2 of the specification describes it as a sample
  function that is deterministic given the generator it was constructed from and
  that exposes no mutable state after construction. The model: the constructor
  calls the generator it is handed \<open>table_draws\<close> times, and the returned sample
  function is \<open>noise_of\<close> of the numbers it drew.
\<close>

record noise_lib =
  table_draws :: nat
  noise_of :: "real list \<Rightarrow> real \<Rightarrow> real \<Rightarrow> real \<Rightarrow> real"

definition createNoise3D ::
  "noise_lib \<Rightarrow> nat \<Rightarrow> gen_heap \<Rightarrow> (real \<Rightarrow> real \<Rightarrow> real \<Rightarrow> real) \<times> gen_heap" where
  "createNoise3D lib g h =
     (let (rs, h1) = draws (table_draws lib) g h
      in (noise_of lib rs, h1))"

text \<open>\<open>createNoise3D(createSeededRandom(seed))\<close>; \<open>Rock\<close> calls it with the seed 1337.\<close>

definition seeded_noise ::
  "noise_lib \<Rightarrow> int \<Rightarrow> gen_heap \<Rightarrow> (real \<Rightarrow> real \<Rightarrow> real \<Rightarrow> real) \<times> gen_heap" where
  "seeded_noise lib seed h =
     (let (g, h1) = createSeededRandom seed h
      in createNoise3D lib g h1)"

definition rock_noise ::
  "noise_lib \<Rightarrow> gen_heap \<Rightarrow> (real \<Rightarrow> real \<Rightarrow> real \<Rightarrow> real) \<times> gen_heap" where
  "rock_noise lib h = seeded_noise lib 1337 h"

record vec3 =
  vx :: real
  vy :: real
  vz :: real

definition multiplyScalar :: "vec3 \<Rightarrow> real \<Rightarrow> vec3" where
  "multiplyScalar v s = \<lparr>vx = vx v * s, vy = vy v * s, vz = vz v * s\<rparr>"

text \<open>
  A buffer geometry: the position attribute, the triangle index and the normal
  attribute. Numbers are real numbers; the rounding of IEEE doubles and of the
  32-bit position buffer is not modelled.
\<close>

record geometry =
  position :: "vec3 list"
  index :: "nat list"
  normal :: "vec3 list"

text \<open>The scalar computed in the body of the loop of \<open>Rock\<close> for the vertex \<open>temp\<close>.\<close>

definition displacement :: "(real \<Rightarrow> real \<Rightarrow> real \<Rightarrow> real) \<Rightarrow> vec3 \<Rightarrow> real" where
  "displacement noise temp =
     (let noiseValue = noise (vx temp * 0.65) (vy temp * 0.8) (vz temp * 0.65);
          ridge = noise (vx temp * 1.2) (vy temp * 0.4) (vz temp * 1.4)
      in 1 + noiseValue * 0.55 + \<bar>ridge\<bar> ^ 3 * 0.3)"

text \<open>
  The loop \<open>for (let i = 0; i < pos.count; i += 1)\<close>: vertex \<open>i\<close> is read from the
  buffer, scaled, and written back at the same index.
\<close>

function displace_from :: "(real \<Rightarrow> real \<Rightarrow> real \<Rightarrow> real) \<Rightarrow> nat \<Rightarrow> vec3 list \<Rightarrow> vec3 list" where
  "displace_from noise i pos =
     (if i < length pos
      then let temp = pos ! i;
               temp1 = multiplyScalar temp (displacement noise temp)
           in displace_from noise (i + 1) (pos[i := temp1])
      else pos)"
  by pat_completeness auto
termination
  by (relation "measure (\<lambda>(noise, i, pos). length pos - i)") auto

declare displace_from.simps [simp del]

text \<open>
  The body of the \<open>useMemo\<close> of \<open>Rock\<close>. The lathe geometry \<open>geo\<close> and
  \<open>computeVertexNormals\<close> (here \<open>cvn\<close>, a function of the positions and the
  index that writes the normal attribute) belong to three.js and are parameters.
\<close>

definition rock_geometry ::
  "noise_lib \<Rightarrow> (vec3 list \<Rightarrow> nat list \<Rightarrow> vec3 list) \<Rightarrow> geometry \<Rightarrow> gen_heap
     \<Rightarrow> geometry \<times> gen_heap" where
  "rock_geometry lib cvn geo h =
     (let (noise, h1) = rock_noise lib h;
          geo1 = geo\<lparr>position := displace_from noise 0 (position geo)\<rparr>;
          geo2 = geo1\<lparr>normal := cvn (position geo1) (index geo1)\<rparr>
      in (geo2, h1))"

text \<open>
  The mounted \<open>Rock\<close>: the memoised geometry and the mesh's rotation about y.
  The frame callback returns at once while the mesh ref is null and otherwise
  only advances the rotation.
\<close>

record rock =
  rock_geo :: geometry
  rotation_y :: real

definition rock_frame :: "bool \<Rightarrow> real \<Rightarrow> rock \<Rightarrow> rock" where
  "rock_frame mesh_present delta r =
     (if \<not> mesh_present then r else r\<lparr>rotation_y := rotation_y r + delta * 0.05\<rparr>)"

section \<open>The waterfall and spray particles\<close>

text \<open>
  \<open>Math.random\<close> and \<open>performance.now\<close> belong to the platform. The world holds
  the numbers \<open>Math.random\<close> is going to return, in call order, and how many of
  them have been consumed.
\<close>

record world =
  rand_stream :: "nat \<Rightarrow> real"
  rand_pos :: nat

definition Math_random :: "world \<Rightarrow> real \<times> world" where
  "Math_random w = (rand_stream w (rand_pos w), w\<lparr>rand_pos := Suc (rand_pos w)\<rparr>)"

text \<open>
  \<open>MathUtils.randFloatSpread\<close> belongs to three.js: a random number in the interval
  of the given width around zero, \<open>range * (0.5 - Math.random())\<close>.
\<close>

definition randFloatSpread :: "real \<Rightarrow> world \<Rightarrow> real \<times> world" where
  "randFloatSpread spread w =
     (let (r, w1) = Math_random w in (spread * (0.5 - r), w1))"

definition WATERFALL_PARTICLES :: nat where
  "WATERFALL_PARTICLES = 900"

record particle =
  offset :: real
  speed :: real
  jitter :: real

text \<open>The object literal of \<open>Waterfall\<close>: its properties are evaluated in order.\<close>

definition new_droplet :: "world \<Rightarrow> particle \<times> world" where
  "new_droplet w =
     (let (r1, w1) = Math_random w;
          (r2, w2) = Math_random w1;
          (j, w3) = randFloatSpread 0.65 w2
      in (\<lparr>offset = r1, speed = 0.18 + r2 * 0.32, jitter = j\<rparr>, w3))"

text \<open>\<open>Array.from({ length: n }, () => ...)\<close>.\<close>

fun create_droplets :: "nat \<Rightarrow> world \<Rightarrow> particle list \<times> world" where
  "create_droplets 0 w = ([], w)"
| "create_droplets (Suc n) w =
     (let (p, w1) = new_droplet w;
          (ps, w2) = create_droplets n w1
      in (p # ps, w2))"

text \<open>
  The remainder operator \<open>%\<close> of JavaScript on numbers: the quotient is truncated
  towards zero, so the result has the sign of the dividend. It is only used
  with the divisor 1 here.
\<close>

definition trunc :: "real \<Rightarrow> int" where
  "trunc x = (if 0 \<le> x then \<lfloor>x\<rfloor> else \<lceil>x\<rceil>)"

definition js_rem :: "real \<Rightarrow> real \<Rightarrow> real" where
  "js_rem a n = a - n * of_int (trunc (a / n))"

text \<open>The first statement of the \<open>forEach\<close> body of the frame callback of \<open>Waterfall\<close>.\<close>

definition advance :: "real \<Rightarrow> particle \<Rightarrow> particle" where
  "advance delta p = p\<lparr>offset := js_rem (offset p + delta * speed p) 1\<rparr>"

definition waterfall_frame :: "bool \<Rightarrow> real \<Rightarrow> particle list \<Rightarrow> particle list" where
  "waterfall_frame mesh_present delta droplets =
     (if \<not> mesh_present then droplets else map (advance delta) droplets)"

text \<open>A run of frames; each frame has the state of the mesh ref and its delta.\<close>

fun run_frames :: "(bool \<times> real) list \<Rightarrow> particle list \<Rightarrow> particle list" where
  "run_frames [] droplets = droplets"
| "run_frames ((m, delta) # fs) droplets = run_frames fs (waterfall_frame m delta droplets)"

text \<open>
  The scale of a droplet is computed in IEEE doubles. A finite double is a pair
  of a mantissa and an exponent and stands for mantissa times two to the
  exponent. The range of the exponent is not modelled: for a progress in
  \<open>[0, 1]\<close> no intermediate result of the scale overflows or is subnormal.
\<close>

type_synonym double = "int \<times> int"

definition dval :: "double \<Rightarrow> real" where
  "dval d = of_int (fst d) * 2 powi (snd d)"

text \<open>The number of binary digits of a natural number.\<close>

fun bit_length :: "nat \<Rightarrow> nat" where
  "bit_length n = (if n = 0 then 0 else Suc (bit_length (n div 2)))"

declare bit_length.simps [simp del]

text \<open>
  Rounding of the exact result \<open>m * 2^e\<close> of an operation to 53 significant
  bits, to the nearest double, a tie going to the even mantissa.
\<close>

definition round53 :: "int \<Rightarrow> int \<Rightarrow> double" where
  "round53 m e =
     (let n = bit_length (nat \<bar>m\<bar>)
      in if n \<le> 53 then (m, e)
         else let k = n - 53;
                  q = \<bar>m\<bar> div 2 ^ k;
                  r = \<bar>m\<bar> mod 2 ^ k;
                  q1 = (if 2 ^ k < 2 * r \<or> (2 * r = 2 ^ k \<and> odd q) then q + 1 else q)
              in (sgn m * q1, e + int k))"

text \<open>The operators \<open>+\<close>, \<open>-\<close> and \<open>*\<close> on doubles: the exact result, rounded.\<close>

definition dadd :: "double \<Rightarrow> double \<Rightarrow> double" where
  "dadd x y =
     (let e = min (snd x) (snd y)
      in round53 (fst x * 2 ^ nat (snd x - e) + fst y * 2 ^ nat (snd y - e)) e)"

definition dsub :: "double \<Rightarrow> double \<Rightarrow> double" where
  "dsub x y =
     (let e = min (snd x) (snd y)
      in round53 (fst x * 2 ^ nat (snd x - e) - fst y * 2 ^ nat (snd y - e)) e)"

definition dmul :: "double \<Rightarrow> double \<Rightarrow> double" where
  "dmul x y = round53 (fst x * fst y) (snd x + snd y)"

text \<open>
  \<open>MathUtils.lerp\<close> belongs to three.js: \<open>(1 - t) * x + t * y\<close>, each operation
  rounded.
\<close>

definition lerp :: "double \<Rightarrow> double \<Rightarrow> double \<Rightarrow> double" where
  "lerp x y t = dadd (dmul (dsub (1, 0) t) x) (dmul t y)"

text \<open>
  The scale given to a droplet whose offset is \<open>progress\<close>:
  \<open>MathUtils.lerp(0.05, 0.28, 1 - Math.pow(1 - progress, 2))\<close>. The literals 0.05
  and 0.28 denote the doubles \<open>3602879701896397 * 2^-56\<close> and
  \<open>1261007895663739 * 2^-52\<close>. \<open>Math.pow\<close> belongs to the platform, and ECMAScript
  leaves its accuracy to the implementation: the function that maps \<open>a\<close> to
  \<open>Math.pow(a, 2)\<close> is the parameter \<open>pow2\<close>.
\<close>

definition particle_scale :: "(double \<Rightarrow> double) \<Rightarrow> double \<Rightarrow> double" where
  "particle_scale pow2 progress =
     lerp (3602879701896397, - 56) (1261007895663739, - 52)
       (dsub (1, 0) (pow2 (dsub (1, 0) progress)))"

text \<open>A \<open>Math.pow\<close> that returns the correctly rounded square.\<close>

definition square_rounded :: "double \<Rightarrow> double" where
  "square_rounded a = dmul a a"

text \<open>
  A \<open>Math.pow\<close> whose square is wrong by at most one unit in the last place: a
  relative error of at most \<open>2^-52\<close>.
\<close>

definition pow2_accurate :: "(double \<Rightarrow> double) \<Rightarrow> bool" where
  "pow2_accurate pow2 \<longleftrightarrow>
     (\<forall>a. \<bar>dval (pow2 a) - dval a * dval a\<bar> \<le> 2 powi (-52) * \<bar>dval a * dval a\<bar>)"

text \<open>
  The curve of the specification, \<open>lerp(0.05, 0.28, 1 - (1 - progress)^2)\<close>, in
  exact arithmetic over the real numbers; the scale the program computes is
  compared with it.
\<close>

definition scale_curve :: "real \<Rightarrow> real" where
  "scale_curve p = (1 - (1 - (1 - p)\<^sup>2)) * 0.05 + (1 - (1 - p)\<^sup>2) * 0.28"

record spray_particle =
  baseTheta :: real
  radius :: real
  spray_speed :: real
  height :: real
  spray_jitter :: real

definition new_spray_particle :: "world \<Rightarrow> spray_particle \<times> world" where
  "new_spray_particle w =
     (let (r1, w1) = Math_random w;
          (r2, w2) = Math_random w1;
          (r3, w3) = Math_random w2;
          (r4, w4) = Math_random w3;
          (r5, w5) = Math_random w4
      in (\<lparr>baseTheta = r1 * pi * 2, radius = 0.05 + r2 * 0.2, spray_speed = 0.6 + r3 * 0.4,
           height = r4 * 0.5, spray_jitter = r5 * 2\<rparr>, w5))"

fun create_spray :: "nat \<Rightarrow> world \<Rightarrow> spray_particle list \<times> world" where
  "create_spray 0 w = ([], w)"
| "create_spray (Suc n) w =
     (let (p, w1) = new_spray_particle w;
          (ps, w2) = create_spray n w1
      in (p # ps, w2))"

text \<open>
  The phase of a spray particle in a frame in which \<open>performance.now()\<close> returns
  \<open>now\<close>.
\<close>

definition spray_phase :: "real \<Rightarrow> spray_particle \<Rightarrow> real" where
  "spray_phase now p = js_rem (now * 0.0006 * spray_speed p + spray_jitter p) 1"

section \<open>The capture pipeline of \<open>CaptureBridge\<close>\<close>

definition EXPORT_WIDTH :: real where
  "EXPORT_WIDTH = 3200"

definition EXPORT_HEIGHT :: real where
  "EXPORT_HEIGHT = 4000"

text \<open>What the capture does to the renderer, the canvas, the camera and the page.\<close>

datatype event =
    SetPixelRatio real
  | SetSize real real
  | UpdateProjectionMatrix real
  | Render
  | ToDataURL
  | Download
  | Invalidate

text \<open>
  A value of \<open>canvas.style.width\<close> or \<open>canvas.style.height\<close>: a text set by the
  page, or the text \<open>n + 'px'\<close> for a number \<open>n\<close>.
\<close>

datatype style_value = StyleText string | Px real

text \<open>
  The renderer's pixel ratio and size, the display style of its canvas, the
  camera's aspect ratio, the aspect ratio its projection matrix was last
  computed from, and the calls made on them so far, in order.
\<close>

record view =
  pixelRatio :: real
  viewportWidth :: real
  viewportHeight :: real
  styleWidth :: style_value
  styleHeight :: style_value
  aspect :: real
  projection :: real
  calls :: "event list"

text \<open>
  Modelled from the spec: the renderer and the camera belong to three.js, which is
  not part of the repository. Section 6 of the specification gives their
  interface: setting and reading the pixel density and the viewport size,
  \<open>render\<close>, the camera's aspect ratio and the recomputation of its projection.
  \<open>setSize\<close> writes the display style of the canvas only when its third argument
  is true.
\<close>

definition getPixelRatio :: "view \<Rightarrow> real" where
  "getPixelRatio v = pixelRatio v"

definition getSize :: "view \<Rightarrow> real \<times> real" where
  "getSize v = (viewportWidth v, viewportHeight v)"

definition setPixelRatio :: "real \<Rightarrow> view \<Rightarrow> view" where
  "setPixelRatio r v = v\<lparr>pixelRatio := r, calls := calls v @ [SetPixelRatio r]\<rparr>"

definition setSize :: "real \<Rightarrow> real \<Rightarrow> bool \<Rightarrow> view \<Rightarrow> view" where
  "setSize w h updateStyle v =
     (let v1 = v\<lparr>viewportWidth := w, viewportHeight := h, calls := calls v @ [SetSize w h]\<rparr>
      in if updateStyle then v1\<lparr>styleWidth := Px w, styleHeight := Px h\<rparr> else v1)"

definition updateProjectionMatrix :: "view \<Rightarrow> view" where
  "updateProjectionMatrix v =
     v\<lparr>projection := aspect v, calls := calls v @ [UpdateProjectionMatrix (aspect v)]\<rparr>"

definition render :: "view \<Rightarrow> view" where
  "render v = v\<lparr>calls := calls v @ [Render]\<rparr>"

text \<open>
  The calls of the capture that can throw, by call site: the render at the
  export size, \<open>canvas.toDataURL\<close>, the block that creates, clicks and removes the
  download link, and the render at the end. The environment says which of them
  throw.
\<close>

datatype fallible = CallRender | CallToDataURL | CallDownload | CallFinalRender

datatype outcome = Resolved | Rejected fallible

type_synonym env = "fallible \<Rightarrow> bool"

text \<open>
  The async function \<open>capture\<close>. It contains no \<open>await\<close>, so its body runs to its
  end, or to the first call that throws, when it is called; an exception
  rejects the promise it returns. The body has no \<open>try\<close>.
\<close>

definition capture :: "env \<Rightarrow> view \<Rightarrow> outcome \<times> view" where
  "capture throws v =
     (let originalPixelRatio = getPixelRatio v;
          originalSize = getSize v;
          originalAspect = aspect v;
          prevStyle = (styleWidth v, styleHeight v);
          v1 = setPixelRatio 1 v;
          v2 = setSize EXPORT_WIDTH EXPORT_HEIGHT False v1;
          v3 = v2\<lparr>aspect := EXPORT_WIDTH / EXPORT_HEIGHT\<rparr>;
          v4 = updateProjectionMatrix v3
      in if throws CallRender then (Rejected CallRender, v4)
         else let v5 = render v4
         in if throws CallToDataURL then (Rejected CallToDataURL, v5)
         else let v6 = v5\<lparr>calls := calls v5 @ [ToDataURL]\<rparr>
         in if throws CallDownload then (Rejected CallDownload, v6)
         else let v7 = v6\<lparr>calls := calls v6 @ [Download]\<rparr>;
                  v8 = setPixelRatio originalPixelRatio v7;
                  v9 = setSize (fst originalSize) (snd originalSize) False v8;
                  v10 = v9\<lparr>styleWidth := fst prevStyle, styleHeight := snd prevStyle\<rparr>;
                  v11 = v10\<lparr>aspect := originalAspect\<rparr>;
                  v12 = updateProjectionMatrix v11
              in if throws CallFinalRender then (Rejected CallFinalRender, v12)
                 else let v13 = render v12;
                          v14 = v13\<lparr>calls := calls v13 @ [Invalidate]\<rparr>
                      in (Resolved, v14))"

section \<open>The export handler of \<open>SceneCanvas\<close>\<close>

text \<open>
  The component: whether \<open>captureRef.current\<close> holds the capture function, the
  value of the state \<open>isExporting\<close> as of the last render (the value that the
  \<open>handleExport\<close> of that render has captured and that disables the button), the
  state updates queued since, the invocations of \<open>handleExport\<close> that are
  suspended at their \<open>await\<close> with the outcome of their capture, and the view.
\<close>

record scene_canvas =
  captureRef :: bool
  isExporting :: bool
  queued :: "bool list"
  awaiting :: "outcome list"
  canvas :: view

text \<open>
  The steps of the component: an invocation of the \<open>handleExport\<close> of the last
  render, in an environment that says which calls of its capture throw; the
  continuation of the oldest suspended invocation, which runs the \<open>finally\<close>
  block; and a render of the component, which applies the queued updates.
\<close>

datatype step = Invoke env | Resume | Rerender

definition handleExport :: "env \<Rightarrow> scene_canvas \<Rightarrow> scene_canvas" where
  "handleExport throws c =
     (if \<not> captureRef c \<or> isExporting c then c
      else let c1 = c\<lparr>queued := queued c @ [True]\<rparr>;
               (r, v) = capture throws (canvas c1)
           in c1\<lparr>canvas := v, awaiting := awaiting c1 @ [r]\<rparr>)"

definition resume :: "scene_canvas \<Rightarrow> scene_canvas" where
  "resume c =
     (case awaiting c of
        [] \<Rightarrow> c
      | r # rs \<Rightarrow> c\<lparr>awaiting := rs, queued := queued c @ [False]\<rparr>)"

definition rerender :: "scene_canvas \<Rightarrow> scene_canvas" where
  "rerender c =
     (case queued c of
        [] \<Rightarrow> c
      | b # bs \<Rightarrow> c\<lparr>isExporting := last (b # bs), queued := []\<rparr>)"

fun do_step :: "step \<Rightarrow> scene_canvas \<Rightarrow> scene_canvas" where
  "do_step (Invoke throws) c = handleExport throws c"
| "do_step Resume c = resume c"
| "do_step Rerender c = rerender c"

fun run :: "step list \<Rightarrow> scene_canvas \<Rightarrow> scene_canvas" where
  "run [] c = c"
| "run (s # ss) c = run ss (do_step s c)"

text \<open>The number of captures that reached the encoding of the image.\<close>

definition encodings :: "view \<Rightarrow> nat" where
  "encodings v = length (filter (\<lambda>e. e = ToDataURL) (calls v))"

text \<open>The number of resizes to the export size.\<close>

definition export_resizes :: "view \<Rightarrow> nat" where
  "export_resizes v = length (filter (\<lambda>e. e = SetSize EXPORT_WIDTH EXPORT_HEIGHT) (calls v))"

text \<open>
  The invariant of a droplet under the frame callback: its offset lies in
  \<open>[0, 1)\<close> and its speed is not negative.
\<close>

definition in_unit :: "particle \<Rightarrow> bool" where
  "in_unit p \<longleftrightarrow> 0 \<le> offset p \<and> offset p < 1 \<and> 0 \<le> speed p"

section \<open>Sample inputs\<close>

text \<open>A live view: pixel ratio 2, an 800 by 600 viewport, aspect ratio 4/3.\<close>

definition live_view :: view where
  "live_view =
     \<lparr>pixelRatio = 2, viewportWidth = 800, viewportHeight = 600,
      styleWidth = StyleText ''100%'', styleHeight = StyleText ''540px'',
      aspect = 4 / 3, projection = 4 / 3, calls = []\<rparr>"

text \<open>An environment in which no call throws, and one in which \<open>toDataURL\<close> throws.\<close>

definition no_throw :: env where
  "no_throw c = False"

definition encode_throws :: env where
  "encode_throws c = (c = CallToDataURL)"

text \<open>
  The component is idle when the rendered flag is clear, no state update is
  queued and no invocation of the handler is suspended.
\<close>

definition idle :: "scene_canvas \<Rightarrow> bool" where
  "idle c \<longleftrightarrow> \<not> isExporting c \<and> queued c = [] \<and> awaiting c = []"

text \<open>The value of the flag that the next render is going to show.\<close>

definition next_flag :: "scene_canvas \<Rightarrow> bool" where
  "next_flag c = (if queued c = [] then isExporting c else last (queued c))"

definition mounted :: scene_canvas where
  "mounted =
     \<lparr>captureRef = True, isExporting = False, queued = [], awaiting = [], canvas = live_view\<rparr>"

text \<open>Two platforms: \<open>Math.random\<close> always returns 0 on one and 1/2 on the other.\<close>

definition world_a :: world where
  "world_a = \<lparr>rand_stream = (\<lambda>k. 0), rand_pos = 0\<rparr>"

definition world_b :: world where
  "world_b = \<lparr>rand_stream = (\<lambda>k. 1 / 2), rand_pos = 0\<rparr>"

text \<open>
  Two platforms whose \<open>Math.random\<close> agree on the first six numbers (all 1/4) and
  differ afterwards.
\<close>

definition world_c :: world where
  "world_c = \<lparr>rand_stream = (\<lambda>k. if k < 6 then 1 / 4 else 0), rand_pos = 0\<rparr>"

definition world_d :: world where
  "world_d = \<lparr>rand_stream = (\<lambda>k. if k < 6 then 1 / 4 else 1 / 2), rand_pos = 0\<rparr>"


section \<open>The generator and the noise field\<close>

lemma mulberry_range: "0 \<le> fst (mulberry s) \<and> fst (mulberry s) < 1"
proof -
  obtain w :: "32 word" where w: "fst (mulberry s) = real_of_int (uint w) / 4294967296"
    by (simp add: mulberry_def Let_def)
  have "uint w < 4294967296"
    using uint_bounded [of w] by simp
  then have "real_of_int (uint w) < 4294967296"
    by linarith
  moreover have "0 \<le> real_of_int (uint w)"
    using uint_ge_0 [of w] by linarith
  ultimately show ?thesis
    unfolding w by simp
qed

lemma random_call_range: "0 \<le> fst (random_call g h) \<and> fst (random_call g h) < 1"
  using mulberry_range [of "seed_cell h g"]
  by (simp add: random_call_def split_def Let_def)

lemma draws_range: "list_all (\<lambda>r. 0 \<le> r \<and> r < 1) (fst (draws n g h))"
proof (induction n arbitrary: h)
  case 0
  show ?case by simp
next
  case (Suc n)
  show ?case
    using random_call_range [of g h] Suc [of "snd (random_call g h)"]
    by (simp add: split_def Let_def)
qed

text \<open>
  The numbers a closure returns depend on the store only through the closure's
  own variable.
\<close>

lemma draws_cell:
  "seed_cell h1 g1 = seed_cell h2 g2 \<Longrightarrow> fst (draws n g1 h1) = fst (draws n g2 h2)"
proof (induction n arbitrary: h1 h2)
  case 0
  show ?case by simp
next
  case (Suc n)
  have "seed_cell (snd (random_call g1 h1)) g1 = seed_cell (snd (random_call g2 h2)) g2"
    using Suc.prems by (simp add: random_call_def split_def Let_def)
  from Suc.IH [OF this] Suc.prems show ?case
    by (simp add: split_def random_call_def Let_def)
qed

text \<open>A call of another closure in between does not change them.\<close>

lemma draws_other:
  "g' \<noteq> g \<Longrightarrow> fst (draws n g (snd (random_call g' h))) = fst (draws n g h)"
  by (rule draws_cell) (simp add: random_call_def split_def Let_def)

lemma created_draws:
  "fst (draws n (fst (createSeededRandom s h1)) (snd (createSeededRandom s h1))) =
   fst (draws n (fst (createSeededRandom s h2)) (snd (createSeededRandom s h2)))"
  by (rule draws_cell) (simp add: createSeededRandom_def)

lemma seeded_noise_heap: "fst (seeded_noise lib s h1) = fst (seeded_noise lib s h2)"
  using created_draws [of "table_draws lib" s h1 h2]
  by (simp add: seeded_noise_def createNoise3D_def split_def Let_def)

text \<open>
  Claim C8. For every integer seed \<open>s\<close>, two generators created with \<open>s\<close>, in any
  two stores, return the same numbers in the same call order; every number a
  generator returns lies in \<open>[0, 1)\<close>; and the noise fields constructed from two
  such generators return the same value at every point \<open>(x, y, z)\<close>.
\<close>

theorem seeded_noise_deterministic:
  "fst (draws n (fst (createSeededRandom s h1)) (snd (createSeededRandom s h1))) =
     fst (draws n (fst (createSeededRandom s h2)) (snd (createSeededRandom s h2)))
   \<and> list_all (\<lambda>r. 0 \<le> r \<and> r < 1) (fst (draws n g h))
   \<and> fst (seeded_noise lib s h1) x y z = fst (seeded_noise lib s h2) x y z"
  using created_draws [of n s h1 h2] draws_range [of n g h] seeded_noise_heap [of lib s h1 h2]
  by simp

section \<open>The displacement of the rock mesh\<close>

text \<open>
  The loop started at index \<open>i\<close> leaves the vertices before \<open>i\<close> as they are and
  scales every other vertex by the displacement computed from its own position
  before the loop.
\<close>

lemma displace_from_map:
  "displace_from noise i pos =
     take i pos @ map (\<lambda>v. multiplyScalar v (displacement noise v)) (drop i pos)"
proof (induction noise i pos rule: displace_from.induct)
  case (1 noise i pos)
  show ?case
  proof (cases "i < length pos")
    case True
    let ?x = "multiplyScalar (pos ! i) (displacement noise (pos ! i))"
    have "displace_from noise i pos = displace_from noise (i + 1) (pos[i := ?x])"
      using True by (subst displace_from.simps) (simp add: Let_def)
    also have "\<dots> = take (i + 1) (pos[i := ?x]) @
        map (\<lambda>v. multiplyScalar v (displacement noise v)) (drop (i + 1) (pos[i := ?x]))"
      using "1.IH" [OF True refl refl] by simp
    also have "take (i + 1) (pos[i := ?x]) = take i pos @ [?x]"
      using True by (simp add: take_Suc_conv_app_nth)
    also have "drop (i + 1) (pos[i := ?x]) = drop (Suc i) pos"
      by simp
    finally show ?thesis
      using True by (simp add: Cons_nth_drop_Suc [symmetric])
  next
    case False
    then show ?thesis
      by (subst displace_from.simps) simp
  qed
qed

lemma displace_all:
  "displace_from noise 0 pos = map (\<lambda>v. multiplyScalar v (displacement noise v)) pos"
  by (simp add: displace_from_map)

lemma rock_geometry_eq:
  "fst (rock_geometry lib cvn geo h) =
     geo\<lparr>position := map (\<lambda>v. multiplyScalar v (displacement (fst (rock_noise lib h)) v)) (position geo),
         normal := cvn (map (\<lambda>v. multiplyScalar v (displacement (fst (rock_noise lib h)) v)) (position geo))
                     (index geo)\<rparr>"
  by (simp add: rock_geometry_def split_def Let_def displace_all)

text \<open>
  Claim C5. Every vertex \<open>(x, y, z)\<close> of the rock mesh becomes
  \<open>(x * d, y * d, z * d)\<close> with the scalar \<open>d = 1 + base * 0.55 + |ridge|^3 * 0.3\<close>,
  where \<open>base\<close> and \<open>ridge\<close> are the noise field sampled at
  \<open>(0.65 x, 0.8 y, 0.65 z)\<close> and at \<open>(1.2 x, 0.4 y, 1.4 z)\<close> for the position the
  vertex had before the displacement; the normals are computed from the
  displaced positions afterwards; a vertex at \<open>(0, 0, 0)\<close>, at whatever index,
  stays at \<open>(0, 0, 0)\<close>; and a frame leaves the geometry as it was constructed.
\<close>

theorem rock_displacement:
  "position (fst (rock_geometry lib cvn geo h)) =
     map (\<lambda>p. \<lparr>vx = vx p *
                    (1 + fst (rock_noise lib h) (vx p * 0.65) (vy p * 0.8) (vz p * 0.65) * 0.55
                       + \<bar>fst (rock_noise lib h) (vx p * 1.2) (vy p * 0.4) (vz p * 1.4)\<bar> ^ 3 * 0.3),
                vy = vy p *
                    (1 + fst (rock_noise lib h) (vx p * 0.65) (vy p * 0.8) (vz p * 0.65) * 0.55
                       + \<bar>fst (rock_noise lib h) (vx p * 1.2) (vy p * 0.4) (vz p * 1.4)\<bar> ^ 3 * 0.3),
                vz = vz p *
                    (1 + fst (rock_noise lib h) (vx p * 0.65) (vy p * 0.8) (vz p * 0.65) * 0.55
                       + \<bar>fst (rock_noise lib h) (vx p * 1.2) (vy p * 0.4) (vz p * 1.4)\<bar> ^ 3 * 0.3)\<rparr>)
         (position geo)
   \<and> normal (fst (rock_geometry lib cvn geo h)) =
       cvn (position (fst (rock_geometry lib cvn geo h))) (index geo)
   \<and> position (fst (rock_geometry lib cvn
         (geo\<lparr>position := ps @ \<lparr>vx = 0, vy = 0, vz = 0\<rparr> # qs\<rparr>) h)) ! length ps =
       \<lparr>vx = 0, vy = 0, vz = 0\<rparr>
   \<and> rock_geo (rock_frame mesh_present delta r) = rock_geo r"
  by (simp add: rock_geometry_eq displacement_def Let_def multiplyScalar_def rock_frame_def
      nth_append)

text \<open>
  Claim C6. The displacement leaves the number of vertices and the triangle
  index as they were: the constructed geometry is the lathe geometry with new
  positions and new normals, and nothing else changed.
\<close>

theorem displacement_keeps_topology:
  "length (position (fst (rock_geometry lib cvn geo h))) = length (position geo)
   \<and> index (fst (rock_geometry lib cvn geo h)) = index geo
   \<and> (\<exists>ps ns. fst (rock_geometry lib cvn geo h) = geo\<lparr>position := ps, normal := ns\<rparr>)"
  by (auto simp: rock_geometry_eq)

section \<open>The waterfall particles\<close>

lemma js_rem_unit: "0 \<le> x \<Longrightarrow> 0 \<le> js_rem x 1 \<and> js_rem x 1 < 1"
  unfolding js_rem_def trunc_def by simp linarith

lemma advance_in_unit: "0 \<le> delta \<Longrightarrow> in_unit p \<Longrightarrow> in_unit (advance delta p)"
  using js_rem_unit [of "offset p + delta * speed p"]
  by (simp add: in_unit_def advance_def)

lemma frame_in_unit:
  "0 \<le> delta \<Longrightarrow> list_all in_unit ps \<Longrightarrow> list_all in_unit (waterfall_frame m delta ps)"
  by (simp add: waterfall_frame_def list_all_iff advance_in_unit)

lemma run_frames_in_unit:
  "list_all (\<lambda>f. 0 \<le> snd f) fs \<Longrightarrow> list_all in_unit ps \<Longrightarrow> list_all in_unit (run_frames fs ps)"
proof (induction fs arbitrary: ps)
  case Nil
  then show ?case by simp
next
  case (Cons f fs)
  obtain m delta where f: "f = (m, delta)" by (cases f)
  from Cons.prems have "0 \<le> delta" and rest: "list_all (\<lambda>f. 0 \<le> snd f) fs"
    by (simp_all add: f)
  from frame_in_unit [OF \<open>0 \<le> delta\<close> Cons.prems(2)]
  have "list_all in_unit (waterfall_frame m delta ps)" .
  from Cons.IH [OF rest this] show ?case
    by (simp add: f)
qed

lemma new_droplet_in_unit:
  assumes "\<forall>k. 0 \<le> rand_stream w k \<and> rand_stream w k < 1"
  shows "in_unit (fst (new_droplet w)) \<and> rand_stream (snd (new_droplet w)) = rand_stream w"
  using assms
  by (simp add: new_droplet_def Math_random_def randFloatSpread_def split_def Let_def in_unit_def)

lemma create_droplets_in_unit:
  "\<forall>k. 0 \<le> rand_stream w k \<and> rand_stream w k < 1 \<Longrightarrow> list_all in_unit (fst (create_droplets n w))"
proof (induction n arbitrary: w)
  case 0
  show ?case by simp
next
  case (Suc n)
  from new_droplet_in_unit [OF Suc.prems]
  have a: "in_unit (fst (new_droplet w))" and b: "rand_stream (snd (new_droplet w)) = rand_stream w"
    by simp_all
  have "list_all in_unit (fst (create_droplets n (snd (new_droplet w))))"
    by (rule Suc.IH) (simp add: b Suc.prems)
  with a show ?case
    by (simp add: split_def Let_def)
qed

text \<open>
  Claim C3. When \<open>Math.random\<close> returns numbers in \<open>[0, 1)\<close>, the offset of every
  droplet of the waterfall lies in \<open>[0, 1)\<close> after any number of frames whose
  deltas are not negative, whatever speed the droplet drew at creation.
\<close>

theorem waterfall_progress_in_unit_interval:
  assumes "\<forall>k. 0 \<le> rand_stream w k \<and> rand_stream w k < 1"
    and "list_all (\<lambda>f. 0 \<le> snd f) frames"
  shows "list_all (\<lambda>p. 0 \<le> offset p \<and> offset p < 1)
           (run_frames frames (fst (create_droplets n w)))"
proof -
  have "list_all in_unit (run_frames frames (fst (create_droplets n w)))"
    using assms by (intro run_frames_in_unit create_droplets_in_unit)
  then show ?thesis
    by (simp add: list_all_iff in_unit_def)
qed

text \<open>
  Two droplets created from \<open>world_c\<close> and three frames, of which the second
  finds no mesh and the third pushes the offset past 1.
\<close>

theorem waterfall_progress_witness:
  "list_all (\<lambda>p. 0 \<le> offset p \<and> offset p < 1)
     (run_frames [(True, 1 / 20), (False, 5), (True, 39 / 10)] (fst (create_droplets 2 world_c)))"
proof -
  have a: "\<forall>k. 0 \<le> rand_stream world_c k \<and> rand_stream world_c k < 1"
    by (simp add: world_c_def)
  have b: "list_all (\<lambda>f. 0 \<le> snd f) [(True, 1 / 20), (False, 5), (True, 39 / 10 :: real)]"
    by simp
  show ?thesis
    by (rule waterfall_progress_in_unit_interval [OF a b])
qed

section \<open>The scale of a droplet\<close>

subsection \<open>The error of one rounding\<close>

lemma bit_length_bounds: "0 < n \<Longrightarrow> 2 ^ (bit_length n - 1) \<le> n \<and> n < 2 ^ bit_length n"
proof (induction n rule: bit_length.induct)
  case (1 n)
  show ?case
  proof (cases "n div 2 = 0")
    case True
    with 1(2) have "n = 1" by (simp add: div_eq_0_iff) 
    then show ?thesis
      by (simp add: bit_length.simps [of "Suc 0"] bit_length.simps [of 0])
  next
    case False
    then have pos: "0 < n div 2" by simp
    from 1(2) have n0: "n \<noteq> 0" by simp
    from "1.IH" [OF n0 pos] have ih: "2 ^ (bit_length (n div 2) - 1) \<le> n div 2"
      "n div 2 < 2 ^ bit_length (n div 2)" by simp_all
    have bl: "bit_length n = Suc (bit_length (n div 2))"
      using n0 by (subst bit_length.simps) simp
    have blpos: "0 < bit_length (n div 2)"
      using pos by (subst bit_length.simps) simp
    then obtain j where j: "bit_length (n div 2) = Suc j"
      by (cases "bit_length (n div 2)") simp_all
    from ih show ?thesis
      unfolding bl j by simp linarith
  qed
qed

lemma round_int:
  fixes a :: int and k :: nat
  assumes a: "2 ^ (52 + k) \<le> a" and k: "0 < k"
  defines "q \<equiv> a div 2 ^ k" and "r \<equiv> a mod 2 ^ k"
  defines "q1 \<equiv> (if 2 ^ k < 2 * r \<or> (2 * r = 2 ^ k \<and> odd q) then q + 1 else q)"
  shows "2 ^ 53 * \<bar>q1 * 2 ^ k - a\<bar> \<le> a"
proof -
  have split: "a = q * 2 ^ k + r"
    unfolding q_def r_def by (rule div_mult_mod_eq [symmetric])
  have r: "0 \<le> r" "r < 2 ^ k"
    by (simp_all add: r_def)
  have "2 * \<bar>q1 * 2 ^ k - a\<bar> \<le> 2 ^ k"
  proof (cases "2 ^ k < 2 * r \<or> (2 * r = 2 ^ k \<and> odd q)")
    case True
    then have "q1 = q + 1" by (simp add: q1_def)
    then have "q1 * 2 ^ k - a = 2 ^ k - r"
      by (simp add: split algebra_simps)
    with True r show ?thesis by auto
  next
    case False
    then have "q1 = q" by (simp add: q1_def)
    then have "q1 * 2 ^ k - a = - r"
      by (simp add: split)
    with False r show ?thesis by auto
  qed
  then have "2 ^ 52 * (2 * \<bar>q1 * 2 ^ k - a\<bar>) \<le> 2 ^ 52 * 2 ^ k"
    by (intro mult_left_mono) simp_all
  also have "(2::int) ^ 52 * 2 ^ k = 2 ^ (52 + k)"
    by (simp only: power_add)
  finally have "2 ^ 52 * (2 * \<bar>q1 * 2 ^ k - a\<bar>) \<le> a"
    using a by (rule order_trans)
  moreover have "(2::int) ^ 53 = 2 ^ 52 * 2"
    by simp
  ultimately show ?thesis
    by (simp only: mult.assoc)
qed

lemma round53_err:
  "\<bar>dval (round53 m e) - of_int m * 2 powi e\<bar> \<le> 2 powi (-53) * \<bar>of_int m * 2 powi e\<bar>"
proof (cases "bit_length (nat \<bar>m\<bar>) \<le> 53")
  case True
  then show ?thesis
    by (simp add: round53_def dval_def)
next
  case False
  define n where "n = bit_length (nat \<bar>m\<bar>)"
  define k where "k = n - 53"
  define a where "a = \<bar>m\<bar>"
  define q where "q = a div 2 ^ k"
  define r where "r = a mod 2 ^ k"
  define q1 where "q1 = (if 2 ^ k < 2 * r \<or> (2 * r = 2 ^ k \<and> odd q) then q + 1 else q)"
  from False have n: "53 < n" by (simp add: n_def)
  then have k: "0 < k" and nk: "n - 1 = 52 + k" by (simp_all add: k_def)
  have apos: "0 < nat a"
    using n by (cases "nat a = 0") (simp_all add: n_def a_def bit_length.simps [of 0])
  have na: "bit_length (nat a) = n"
    by (simp only: n_def a_def)
  from bit_length_bounds [OF apos] have "2 ^ (n - 1) \<le> nat a"
    by (simp only: na)
  then have "int (2 ^ (52 + k)) \<le> int (nat a)"
    by (simp only: nk of_nat_le_iff)
  then have big: "(2::int) ^ (52 + k) \<le> a"
    using apos by simp
  have int_err: "2 ^ 53 * \<bar>q1 * 2 ^ k - a\<bar> \<le> a"
    unfolding q1_def q_def r_def by (rule round_int [OF big k])
  have res: "round53 m e = (sgn m * q1, e + int k)"
    using False by (simp add: round53_def Let_def n_def k_def a_def q_def r_def q1_def)
  have m: "m = sgn m * a"
    by (simp add: a_def sgn_mult_abs)
  have sg: "\<bar>sgn m\<bar> = 1"
    using apos by (auto simp: a_def sgn_if)
  have "dval (round53 m e) - of_int m * 2 powi e =
      of_int (sgn m * (q1 * 2 ^ k - a)) * 2 powi e"
  proof -
    have "(2::real) powi (e + int k) = 2 powi e * 2 ^ k"
      by (simp add: power_int_add)
    then have "dval (round53 m e) = of_int (sgn m * (q1 * 2 ^ k)) * 2 powi e"
      by (simp add: res dval_def)
    moreover have "of_int m * (2::real) powi e = of_int (sgn m * a) * 2 powi e"
      using m by simp
    ultimately show ?thesis
      by (simp add: algebra_simps)
  qed
  then have "\<bar>dval (round53 m e) - of_int m * 2 powi e\<bar> =
      \<bar>real_of_int (sgn m * (q1 * 2 ^ k - a))\<bar> * \<bar>2 powi e\<bar>"
    by (simp only: abs_mult)
  moreover have "\<bar>sgn m * (q1 * 2 ^ k - a)\<bar> = \<bar>q1 * 2 ^ k - a\<bar>"
    by (simp only: abs_mult sg mult_1)
  then have "\<bar>real_of_int (sgn m * (q1 * 2 ^ k - a))\<bar> = real_of_int \<bar>q1 * 2 ^ k - a\<bar>"
    by (simp only: of_int_abs [symmetric])
  moreover have "\<bar>(2::real) powi e\<bar> = 2 powi e"
    by simp
  ultimately have "\<bar>dval (round53 m e) - of_int m * 2 powi e\<bar> =
      of_int \<bar>q1 * 2 ^ k - a\<bar> * 2 powi e"
    by (simp only:)
  also have "\<dots> \<le> (of_int a / 2 ^ 53) * 2 powi e"
  proof (intro mult_right_mono)
    have "real_of_int (2 ^ 53 * \<bar>q1 * 2 ^ k - a\<bar>) \<le> real_of_int a"
      using int_err by (simp only: of_int_le_iff)
    then show "real_of_int \<bar>q1 * 2 ^ k - a\<bar> \<le> real_of_int a / 2 ^ 53"
      by (simp add: field_simps)
    show "0 \<le> (2::real) powi e" by simp
  qed
  also have "\<dots> = 2 powi (-53) * \<bar>of_int m * 2 powi e\<bar>"
    by (simp add: a_def abs_mult power_int_minus field_simps)
  finally show ?thesis .
qed

lemma dmul_err:
  "\<bar>dval (dmul x y) - dval x * dval y\<bar> \<le> 2 powi (-53) * \<bar>dval x * dval y\<bar>"
proof -
  have "of_int (fst x * fst y) * (2::real) powi (snd x + snd y) = dval x * dval y"
    by (simp add: dval_def power_int_add)
  with round53_err [of "fst x * fst y" "snd x + snd y"] show ?thesis
    by (simp add: dmul_def)
qed

lemma align: "of_int (m * 2 ^ n) * (2::real) powi e = of_int m * 2 powi (e + int n)"
  by (simp add: power_int_add)

lemma align_min:
  "of_int (fst x * 2 ^ nat (snd x - min (snd x) (snd y))) * (2::real) powi min (snd x) (snd y) = dval x"
  "of_int (fst y * 2 ^ nat (snd y - min (snd x) (snd y))) * (2::real) powi min (snd x) (snd y) = dval y"
  unfolding align dval_def by simp_all

lemma dsub_err:
  "\<bar>dval (dsub x y) - (dval x - dval y)\<bar> \<le> 2 powi (-53) * \<bar>dval x - dval y\<bar>"
proof -
  define e where "e = min (snd x) (snd y)"
  have "of_int (fst x * 2 ^ nat (snd x - e) - fst y * 2 ^ nat (snd y - e)) * (2::real) powi e =
      dval x - dval y"
    using align_min [where x = x and y = y]
    by (simp only: e_def of_int_diff left_diff_distrib)
  with round53_err [of "fst x * 2 ^ nat (snd x - e) - fst y * 2 ^ nat (snd y - e)" e]
  show ?thesis
    by (simp add: dsub_def Let_def e_def)
qed

lemma dadd_err:
  "\<bar>dval (dadd x y) - (dval x + dval y)\<bar> \<le> 2 powi (-53) * \<bar>dval x + dval y\<bar>"
proof -
  define e where "e = min (snd x) (snd y)"
  have "of_int (fst x * 2 ^ nat (snd x - e) + fst y * 2 ^ nat (snd y - e)) * (2::real) powi e =
      dval x + dval y"
    using align_min [where x = x and y = y]
    by (simp only: e_def of_int_add distrib_right)
  with round53_err [of "fst x * 2 ^ nat (snd x - e) + fst y * 2 ^ nat (snd y - e)" e]
  show ?thesis
    by (simp add: dadd_def Let_def e_def)
qed

subsection \<open>The computed scale and the curve\<close>

lemma dval_one: "dval (1, 0) = 1"
  by (simp add: dval_def)

lemma mul_close:
  fixes a b a0 b0 :: real
  assumes "\<bar>a - a0\<bar> \<le> da" "\<bar>b - b0\<bar> \<le> db" "\<bar>a0\<bar> \<le> A" "\<bar>b\<bar> \<le> B"
  shows "\<bar>a * b - a0 * b0\<bar> \<le> da * B + A * db"
proof -
  have "a * b - a0 * b0 = (a - a0) * b + a0 * (b - b0)"
    by (simp add: algebra_simps)
  then have "\<bar>a * b - a0 * b0\<bar> \<le> \<bar>(a - a0) * b\<bar> + \<bar>a0 * (b - b0)\<bar>"
    by (simp only: abs_triangle_ineq)
  then have "\<bar>a * b - a0 * b0\<bar> \<le> \<bar>a - a0\<bar> * \<bar>b\<bar> + \<bar>a0\<bar> * \<bar>b - b0\<bar>"
    by (simp only: abs_mult)
  also have "\<bar>a - a0\<bar> * \<bar>b\<bar> \<le> da * B"
    using assms by (intro mult_mono) auto
  also have "\<bar>a0\<bar> * \<bar>b - b0\<bar> \<le> A * db"
    using assms by (intro mult_mono) auto
  finally show ?thesis by simp
qed

text \<open>One rounding: the exact result x is within k u of the ideal x0, which is bounded by b.\<close>

lemma rounded_close:
  fixes r x x0 u k b w :: real
  assumes r: "\<bar>r - x\<bar> \<le> w * u * \<bar>x\<bar>" and x: "\<bar>x - x0\<bar> \<le> k * u" and b: "\<bar>x0\<bar> + k * u \<le> b"
    and u: "0 \<le> u" and w: "0 \<le> w"
  shows "\<bar>r - x0\<bar> \<le> (w * b + k) * u"
proof -
  have "\<bar>x\<bar> \<le> b"
    using x b by linarith
  then have "w * u * \<bar>x\<bar> \<le> w * u * b"
    using u w by (intro mult_left_mono) simp_all
  with r x show ?thesis
    by (simp add: algebra_simps)
qed

lemma d005_close: "\<bar>dval (3602879701896397, -56) - 0.05\<bar> \<le> (3 / 100) * 2 powi (-53)"
  by (simp add: dval_def power_int_minus)

lemma d028_close: "\<bar>dval (1261007895663739, -52) - 0.28\<bar> \<le> (1 / 4) * 2 powi (-53)"
  by (simp add: dval_def power_int_minus)

lemma scale_error:
  assumes acc: "pow2_accurate pow2" and p0: "0 \<le> dval p" and p1: "dval p \<le> 1"
  shows "\<bar>dval (particle_scale pow2 p) - scale_curve (dval p)\<bar> \<le> 2 powi (-51)"
proof -
  define u :: real where "u = 2 powi (-53)"
  have u0: "0 \<le> u" and u1: "u \<le> 1 / 1000"
    by (simp_all add: u_def power_int_minus)
  have w1: "(0::real) \<le> 1" and w2: "(0::real) \<le> 2"
    by simp_all
  define c0 where "c0 = 1 - dval p"
  define c where "c = c0 * c0"
  have c0b: "0 \<le> c0" "c0 \<le> 1"
    using p0 p1 by (simp_all add: c0_def)
  then have cb: "0 \<le> c" "c \<le> 1"
    by (simp_all add: c_def mult_le_one)
  define a where "a = dsub (1, 0) p"
  define b where "b = pow2 a"
  define t where "t = dsub (1, 0) b"
  define omt where "omt = dsub (1, 0) t"
  define x :: double where "x = (3602879701896397, -56)"
  define y :: double where "y = (1261007895663739, -52)"
  define m1 where "m1 = dmul omt x"
  define m2 where "m2 = dmul t y"
  define s where "s = dadd m1 m2"
  have res: "particle_scale pow2 p = s"
    by (simp add: particle_scale_def lerp_def s_def m1_def m2_def omt_def t_def b_def a_def
        x_def y_def)
  have curve: "scale_curve (dval p) = c * (1 / 20) + (1 - c) * (7 / 25)"
    by (simp add: scale_curve_def c_def c0_def power2_eq_square)
  \<comment> \<open>a = 1 - p\<close>
  have r1: "\<bar>dval a - c0\<bar> \<le> 1 * u * \<bar>c0\<bar>"
    using dsub_err [of "(1, 0)" p] by (simp add: a_def dval_one c0_def u_def)
  have x1: "\<bar>c0 - c0\<bar> \<le> 0 * u"
    by simp
  have b1: "\<bar>c0\<bar> + 0 * u \<le> 1"
    using c0b by simp
  from rounded_close [OF r1 x1 b1 u0 w1]
  have A: "\<bar>dval a - c0\<bar> \<le> 1 * u"
    by simp
  then have Ab: "\<bar>dval a\<bar> \<le> 1001 / 1000"
    using c0b u1 by linarith
  \<comment> \<open>b = pow(a, 2)\<close>
  have "\<bar>dval a * dval a - c0 * c0\<bar> \<le> 1 * u * (1001 / 1000) + 1 * (1 * u)"
    using c0b by (intro mul_close A Ab) simp
  then have x2: "\<bar>dval a * dval a - c\<bar> \<le> (2001 / 1000) * u"
    by (simp add: c_def)
  have "2 * u = 2 powi (-52)"
    by (simp add: u_def power_int_minus)
  moreover have "\<bar>dval b - dval a * dval a\<bar> \<le> 2 powi (-52) * \<bar>dval a * dval a\<bar>"
    using acc unfolding pow2_accurate_def b_def by (rule spec)
  ultimately have r2: "\<bar>dval b - dval a * dval a\<bar> \<le> 2 * u * \<bar>dval a * dval a\<bar>"
    by (simp only:)
  have b2: "\<bar>c\<bar> + (2001 / 1000) * u \<le> 101 / 100"
    using cb u1 by linarith
  from rounded_close [OF r2 x2 b2 u0 w2]
  have B: "\<bar>dval b - c\<bar> \<le> (4021 / 1000) * u"
    by simp
  \<comment> \<open>t = 1 - b\<close>
  have r3: "\<bar>dval t - (1 - dval b)\<bar> \<le> 1 * u * \<bar>1 - dval b\<bar>"
    using dsub_err [of "(1, 0)" b] by (simp add: t_def dval_one u_def)
  have x3: "\<bar>(1 - dval b) - (1 - c)\<bar> \<le> (4021 / 1000) * u"
    using B by linarith
  have b3: "\<bar>1 - c\<bar> + (4021 / 1000) * u \<le> 101 / 100"
    using cb u1 by linarith
  from rounded_close [OF r3 x3 b3 u0 w1]
  have T: "\<bar>dval t - (1 - c)\<bar> \<le> (5031 / 1000) * u"
    by simp
  then have Tb: "\<bar>dval t\<bar> \<le> 101 / 100"
    using cb u1 by linarith
  \<comment> \<open>1 - t, in lerp\<close>
  have r4: "\<bar>dval omt - (1 - dval t)\<bar> \<le> 1 * u * \<bar>1 - dval t\<bar>"
    using dsub_err [of "(1, 0)" t] by (simp add: omt_def dval_one u_def)
  have x4: "\<bar>(1 - dval t) - c\<bar> \<le> (5031 / 1000) * u"
    using T by linarith
  have b4: "\<bar>c\<bar> + (5031 / 1000) * u \<le> 101 / 100"
    using cb u1 by linarith
  from rounded_close [OF r4 x4 b4 u0 w1]
  have Om: "\<bar>dval omt - c\<bar> \<le> (6041 / 1000) * u"
    by simp
  \<comment> \<open>the constants\<close>
  have X: "\<bar>dval x - (1 / 20)\<bar> \<le> (3 / 100) * u"
    using d005_close by (simp add: x_def u_def)
  then have Xb: "\<bar>dval x\<bar> \<le> 51 / 1000"
    using u1 by linarith
  have Y: "\<bar>dval y - (7 / 25)\<bar> \<le> (1 / 4) * u"
    using d028_close by (simp add: y_def u_def)
  then have Yb: "\<bar>dval y\<bar> \<le> 281 / 1000"
    using u1 by linarith
  \<comment> \<open>(1 - t) * x\<close>
  have "\<bar>dval omt * dval x - c * (1 / 20)\<bar> \<le> (6041 / 1000) * u * (51 / 1000) + 1 * ((3 / 100) * u)"
    using cb by (intro mul_close Om X Xb) simp
  then have x5: "\<bar>dval omt * dval x - c * (1 / 20)\<bar> \<le> (34 / 100) * u"
    using u0 by linarith
  have r5: "\<bar>dval m1 - dval omt * dval x\<bar> \<le> 1 * u * \<bar>dval omt * dval x\<bar>"
    using dmul_err [of omt x] by (simp add: m1_def u_def)
  have "\<bar>c * (1 / 20)\<bar> = c * (1 / 20)"
    using cb by (simp add: abs_mult)
  then have b5: "\<bar>c * (1 / 20)\<bar> + (34 / 100) * u \<le> 6 / 100"
    using cb u1 by linarith
  from rounded_close [OF r5 x5 b5 u0 w1]
  have M1: "\<bar>dval m1 - c * (1 / 20)\<bar> \<le> (40 / 100) * u"
    by simp
  \<comment> \<open>t * y\<close>
  have "\<bar>dval t * dval y - (1 - c) * (7 / 25)\<bar> \<le> (5031 / 1000) * u * (281 / 1000) + 1 * ((1 / 4) * u)"
    using cb by (intro mul_close T Y Yb) simp
  then have x6: "\<bar>dval t * dval y - (1 - c) * (7 / 25)\<bar> \<le> (167 / 100) * u"
    using u0 by linarith
  have r6: "\<bar>dval m2 - dval t * dval y\<bar> \<le> 1 * u * \<bar>dval t * dval y\<bar>"
    using dmul_err [of t y] by (simp add: m2_def u_def)
  have e6: "\<bar>(1 - c) * (7 / 25)\<bar> = (1 - c) * (7 / 25)"
    using cb by (simp add: abs_mult)
  have "(1 - c) * (7 / 25) + (167 / 100) * u \<le> 29 / 100"
    using cb u1 by argo
  then have b6: "\<bar>(1 - c) * (7 / 25)\<bar> + (167 / 100) * u \<le> 29 / 100"
    by (simp only: e6)
  from rounded_close [OF r6 x6 b6 u0 w1]
  have M2: "\<bar>dval m2 - (1 - c) * (7 / 25)\<bar> \<le> (196 / 100) * u"
    by simp
  \<comment> \<open>the sum\<close>
  have x7: "\<bar>(dval m1 + dval m2) - (c * (1 / 20) + (1 - c) * (7 / 25))\<bar> \<le> (236 / 100) * u"
    using M1 M2 by linarith
  have r7: "\<bar>dval s - (dval m1 + dval m2)\<bar> \<le> 1 * u * \<bar>dval m1 + dval m2\<bar>"
    using dadd_err [of m1 m2] by (simp add: s_def u_def)
  have b7: "\<bar>c * (1 / 20) + (1 - c) * (7 / 25)\<bar> + (236 / 100) * u \<le> 29 / 100"
    using cb u1 by argo
  from rounded_close [OF r7 x7 b7 u0 w1]
  have "\<bar>dval s - (c * (1 / 20) + (1 - c) * (7 / 25))\<bar> \<le> (265 / 100) * u"
    by simp
  then have "\<bar>dval s - (c * (1 / 20) + (1 - c) * (7 / 25))\<bar> \<le> 4 * u"
    using u0 by linarith
  moreover have "4 * u = 2 powi (-51)"
    by (simp add: u_def power_int_minus)
  ultimately show ?thesis
    by (simp only: res curve)
qed

lemma pow2_accurate_square_rounded: "pow2_accurate square_rounded"
proof -
  have "\<bar>dval (dmul a a) - dval a * dval a\<bar> \<le> 2 powi (-52) * \<bar>dval a * dval a\<bar>" for a
  proof -
    have "(2::real) powi (-53) * \<bar>dval a * dval a\<bar> \<le> 2 powi (-52) * \<bar>dval a * dval a\<bar>"
      by (intro mult_right_mono) (simp_all add: power_int_minus)
    with dmul_err [of a a] show ?thesis
      by linarith
  qed
  then show ?thesis
    by (simp add: pow2_accurate_def square_rounded_def)
qed

lemma scale_curve_eq: "scale_curve p = 7 / 25 - (23 / 100) * (1 - p)\<^sup>2"
proof -
  have d: "(0.05::real) = 1 / 20" "(0.28::real) = 7 / 25"
    by simp_all
  have "(1 - (1 - z)) * (1 / 20) + (1 - z) * (7 / 25) = 7 / 25 - (23 / 100) * z" for z :: real
    by argo
  then show ?thesis
    by (simp only: scale_curve_def d)
qed

lemma scale_curve_mono: "p \<le> q \<Longrightarrow> q \<le> 1 \<Longrightarrow> scale_curve p \<le> scale_curve q"
proof -
  assume "p \<le> q" "q \<le> 1"
  then have "(1 - q)\<^sup>2 \<le> (1 - p)\<^sup>2"
    by (intro power_mono) simp_all
  then show ?thesis
    by (simp add: scale_curve_eq)
qed

lemma scale_curve_limit: "(scale_curve \<longlongrightarrow> 0.28) (at_left 1)"
proof -
  have "((\<lambda>p. 7 / 25 - (23 / 100) * (1 - p)\<^sup>2) \<longlongrightarrow> 7 / 25 - (23 / 100) * (1 - 1)\<^sup>2) (at_left (1::real))"
    by (intro tendsto_intros)
  then show ?thesis
    by (simp add: scale_curve_eq [abs_def])
qed

subsection \<open>The computed scale at four inputs\<close>

lemma bit_length_le: "n < 2 ^ j \<Longrightarrow> bit_length n \<le> j"
proof (cases "n = 0")
  case True
  then show ?thesis by (simp add: bit_length.simps [of 0])
next
  case False
  assume n: "n < 2 ^ j"
  from False have "0 < n" by simp
  from bit_length_bounds [OF this] have "(2::nat) ^ (bit_length n - 1) < 2 ^ j"
    using n by linarith
  then have "bit_length n - 1 < j"
    by (simp only: power_strict_increasing_iff [of 2] one_less_numeral_iff semiring_norm)
  then show ?thesis by simp
qed

lemma bit_length_ge: "2 ^ j \<le> n \<Longrightarrow> j < bit_length n"
proof -
  assume n: "2 ^ j \<le> n"
  then have "0 < n"
    by (metis gr0I not_less_eq_eq not_one_le_zero one_le_numeral one_le_power le_zero_eq)
  from bit_length_bounds [OF this] have "(2::nat) ^ j < 2 ^ bit_length n"
    using n by linarith
  then show ?thesis
    by (simp only: power_strict_increasing_iff [of 2] one_less_numeral_iff semiring_norm)
qed

lemma round53_exact: "\<bar>m\<bar> < 2 ^ 53 \<Longrightarrow> round53 m e = (m, e)"
proof -
  assume "\<bar>m\<bar> < 2 ^ 53"
  then have "nat \<bar>m\<bar> < 2 ^ 53"
    by (simp add: nat_less_iff)
  from bit_length_le [OF this] show ?thesis
    by (simp add: round53_def)
qed

lemma round53_shift:
  assumes lo: "2 ^ (52 + k) \<le> \<bar>m\<bar>" and hi: "\<bar>m\<bar> < 2 ^ (53 + k)" and k: "0 < k"
  shows "round53 m e =
    (sgn m * (if 2 ^ k < 2 * (\<bar>m\<bar> mod 2 ^ k) \<or> (2 * (\<bar>m\<bar> mod 2 ^ k) = 2 ^ k \<and> odd (\<bar>m\<bar> div 2 ^ k))
              then \<bar>m\<bar> div 2 ^ k + 1 else \<bar>m\<bar> div 2 ^ k),
     e + int k)"
proof -
  have "(2::nat) ^ (52 + k) \<le> nat \<bar>m\<bar>"
    using lo by (simp add: le_nat_iff)
  then have a: "52 + k < bit_length (nat \<bar>m\<bar>)"
    by (rule bit_length_ge)
  have "nat \<bar>m\<bar> < 2 ^ (53 + k)"
    using hi by (simp add: nat_less_iff)
  then have b: "bit_length (nat \<bar>m\<bar>) \<le> 53 + k"
    by (rule bit_length_le)
  from a b have n: "bit_length (nat \<bar>m\<bar>) = 53 + k"
    by simp
  show ?thesis
    using k by (simp add: round53_def Let_def n)
qed

lemma scale_at_zero:
  "particle_scale square_rounded (0, 0) = (3602879701896397, - 56)"
proof -
  have a: "dsub (1, 0) (0, 0) = (1, 0)"
    by (simp add: dsub_def Let_def round53_exact)
  have b: "dmul (1, 0) (1, 0) = (1, 0)"
    by (simp add: dmul_def round53_exact)
  have t: "dsub (1, 0) (1, 0) = (0, 0)"
    by (simp add: dsub_def Let_def round53_exact)
  have o: "dsub (1, 0) (0, 0) = (1, 0)"
    by (simp add: dsub_def Let_def round53_exact)
  have m1: "dmul (1, 0) (3602879701896397, - 56) = (3602879701896397, - 56)"
    by (simp add: dmul_def round53_exact)
  have m2: "dmul (0, 0) (1261007895663739, - 52) = (0, - 52)"
    by (simp add: dmul_def round53_exact)
  have s: "dadd (3602879701896397, - 56) (0, - 52) = (3602879701896397, - 56)"
    by (simp add: dadd_def Let_def round53_exact)
  show ?thesis
    by (simp only: particle_scale_def lerp_def square_rounded_def a b t o m1 m2 s)
qed

lemma scale_at_one:
  "particle_scale square_rounded (1, 0) = (5044031582654956, - 54)"
proof -
  have a: "dsub (1, 0) (1, 0) = (0, 0)"
    by (simp add: dsub_def Let_def round53_exact)
  have b: "dmul (0, 0) (0, 0) = (0, 0)"
    by (simp add: dmul_def round53_exact)
  have t: "dsub (1, 0) (0, 0) = (1, 0)"
    by (simp add: dsub_def Let_def round53_exact)
  have o: "dsub (1, 0) (1, 0) = (0, 0)"
    by (simp add: dsub_def Let_def round53_exact)
  have m1: "dmul (0, 0) (3602879701896397, - 56) = (0, - 56)"
    by (simp add: dmul_def round53_exact)
  have m2: "dmul (1, 0) (1261007895663739, - 52) = (1261007895663739, - 52)"
    by (simp add: dmul_def round53_exact)
  have s: "dadd (0, - 56) (1261007895663739, - 52) = (5044031582654956, - 54)"
    by (simp add: dadd_def Let_def round53_shift [where k = 2])
  show ?thesis
    by (simp only: particle_scale_def lerp_def square_rounded_def a b t o m1 m2 s)
qed

lemma scale_at_p:
  "particle_scale square_rounded (536870890, - 29) = (5044031582654950, - 54)"
proof -
  have a: "dsub (1, 0) (536870890, - 29) = (22, - 29)"
    by (simp add: dsub_def Let_def round53_exact)
  have b: "dmul (22, - 29) (22, - 29) = (484, - 58)"
    by (simp add: dmul_def round53_exact)
  have t: "dsub (1, 0) (484, - 58) = (9007199254740977, - 53)"
    by (simp add: dsub_def Let_def round53_shift [where k = 5])
  have o: "dsub (1, 0) (9007199254740977, - 53) = (15, - 53)"
    by (simp add: dsub_def Let_def round53_exact)
  have m1: "dmul (15, - 53) (3602879701896397, - 56) = (6755399441055744, - 106)"
    by (simp add: dmul_def round53_shift [where k = 3])
  have m2: "dmul (9007199254740977, - 53) (1261007895663739, - 52) = (5044031582654948, - 54)"
    by (simp add: dmul_def round53_shift [where k = 51])
  have s: "dadd (6755399441055744, - 106) (5044031582654948, - 54) = (5044031582654950, - 54)"
    by (simp add: dadd_def Let_def round53_shift [where k = 52])
  show ?thesis
    by (simp only: particle_scale_def lerp_def square_rounded_def a b t o m1 m2 s)
qed

lemma scale_at_q:
  "particle_scale square_rounded (536870891, - 29) = (5044031582654949, - 54)"
proof -
  have a: "dsub (1, 0) (536870891, - 29) = (21, - 29)"
    by (simp add: dsub_def Let_def round53_exact)
  have b: "dmul (21, - 29) (21, - 29) = (441, - 58)"
    by (simp add: dmul_def round53_exact)
  have t: "dsub (1, 0) (441, - 58) = (9007199254740978, - 53)"
    by (simp add: dsub_def Let_def round53_shift [where k = 5])
  have o: "dsub (1, 0) (9007199254740978, - 53) = (14, - 53)"
    by (simp add: dsub_def Let_def round53_exact)
  have m1: "dmul (14, - 53) (3602879701896397, - 56) = (6305039478318695, - 106)"
    by (simp add: dmul_def round53_shift [where k = 3])
  have m2: "dmul (9007199254740978, - 53) (1261007895663739, - 52) = (5044031582654948, - 54)"
    by (simp add: dmul_def round53_shift [where k = 51])
  have s: "dadd (6305039478318695, - 106) (5044031582654948, - 54) = (5044031582654949, - 54)"
    by (simp add: dadd_def Let_def round53_shift [where k = 52])
  show ?thesis
    by (simp only: particle_scale_def lerp_def square_rounded_def a b t o m1 m2 s)
qed

text \<open>
  Claim C4, as stated, fails for the scale the program computes. The progress
  \<open>1 - 22 * 2^-29\<close> is smaller than the progress \<open>1 - 21 * 2^-29\<close>, and its scale
  \<open>5044031582654950 * 2^-54\<close> is larger than the scale \<open>5044031582654949 * 2^-54\<close>
  of the latter. At both inputs the square is a double, so every \<open>Math.pow\<close>
  whose error is below one unit in the last place returns it exactly; the
  inversion comes from the roundings in \<open>lerp\<close>.
\<close>

theorem particle_scale_not_monotone:
  "0 \<le> dval (536870890, - 29)
   \<and> dval (536870890, - 29) \<le> dval (536870891, - 29)
   \<and> dval (536870891, - 29) \<le> 1
   \<and> dval (particle_scale square_rounded (536870891, - 29))
       < dval (particle_scale square_rounded (536870890, - 29))"
  by (simp add: scale_at_p scale_at_q dval_def power_int_minus)

text \<open>
  Claim C4, amended. In exact arithmetic the curve
  \<open>lerp(0.05, 0.28, 1 - (1 - progress)^2)\<close> does not decrease as the progress
  grows within \<open>[0, 1]\<close>, is 0.05 at progress 0 and tends to 0.28 as the progress
  tends to 1 from below. For a \<open>Math.pow\<close> that is accurate to one unit in the
  last place, the scale the program computes in doubles differs from the curve
  by at most \<open>2^-51\<close> at every progress in \<open>[0, 1]\<close>, so for progresses
  \<open>p \<le> q\<close> in \<open>[0, 1]\<close> the scale at \<open>p\<close> exceeds the scale at \<open>q\<close> by at most
  \<open>2^-50\<close>. With a correctly rounded square the computed scale is the double
  0.05 at progress 0 and the double 0.28 at progress 1.
\<close>

theorem particle_scale_nearly_monotone:
  assumes "pow2_accurate pow2" and "0 \<le> dval p" and "dval p \<le> dval q" and "dval q \<le> 1"
  shows "\<bar>dval (particle_scale pow2 p) - scale_curve (dval p)\<bar> \<le> 2 powi (-51)
    \<and> \<bar>dval (particle_scale pow2 q) - scale_curve (dval q)\<bar> \<le> 2 powi (-51)
    \<and> scale_curve (dval p) \<le> scale_curve (dval q)
    \<and> dval (particle_scale pow2 p) \<le> dval (particle_scale pow2 q) + 2 powi (-50)
    \<and> scale_curve 0 = 0.05
    \<and> (scale_curve \<longlongrightarrow> 0.28) (at_left 1)
    \<and> dval (particle_scale square_rounded (0, 0)) = dval (3602879701896397, - 56)
    \<and> dval (particle_scale square_rounded (1, 0)) = dval (1261007895663739, - 52)"
proof -
  from assms have q0: "0 \<le> dval q" and p1: "dval p \<le> 1"
    by simp_all
  have ep: "\<bar>dval (particle_scale pow2 p) - scale_curve (dval p)\<bar> \<le> 2 powi (-51)"
    using assms(1,2) p1 by (rule scale_error)
  have eq: "\<bar>dval (particle_scale pow2 q) - scale_curve (dval q)\<bar> \<le> 2 powi (-51)"
    using assms(1) q0 assms(4) by (rule scale_error)
  have mono: "scale_curve (dval p) \<le> scale_curve (dval q)"
    using assms(3,4) by (rule scale_curve_mono)
  have "(2::real) powi (-50) = 2 powi (-51) + 2 powi (-51)"
    by (simp add: power_int_minus)
  with ep eq mono
  have near: "dval (particle_scale pow2 p) \<le> dval (particle_scale pow2 q) + 2 powi (-50)"
    by linarith
  have ends: "dval (particle_scale square_rounded (0, 0)) = dval (3602879701896397, - 56)"
    "dval (particle_scale square_rounded (1, 0)) = dval (1261007895663739, - 52)"
    by (simp_all add: scale_at_zero scale_at_one dval_def power_int_minus)
  have zero: "scale_curve 0 = 0.05"
    by (simp add: scale_curve_eq)
  from ep eq mono near zero scale_curve_limit ends show ?thesis
    by (intro conjI)
qed

text \<open>The two progresses of the inversion, with the correctly rounded square.\<close>

theorem particle_scale_nearly_monotone_witness:
  "dval (particle_scale square_rounded (536870890, - 29))
     \<le> dval (particle_scale square_rounded (536870891, - 29)) + 2 powi (-50)
   \<and> \<bar>dval (particle_scale square_rounded (536870890, - 29)) - scale_curve (dval (536870890, - 29))\<bar>
       \<le> 2 powi (-51)"
proof -
  have a: "0 \<le> dval (536870890, - 29)"
    and b: "dval (536870890, - 29) \<le> dval (536870891, - 29)"
    and c: "dval (536870891, - 29) \<le> 1"
    by (simp_all add: dval_def power_int_minus)
  from particle_scale_nearly_monotone [OF pow2_accurate_square_rounded a b c]
  show ?thesis
    by blast
qed

section \<open>Where the particles get their constants\<close>

lemma new_droplet_eq:
  "new_droplet w =
     (\<lparr>offset = rand_stream w (rand_pos w),
       speed = 0.18 + rand_stream w (rand_pos w + 1) * 0.32,
       jitter = 0.65 * (0.5 - rand_stream w (rand_pos w + 2))\<rparr>,
      w\<lparr>rand_pos := rand_pos w + 3\<rparr>)"
  by (simp add: new_droplet_def Math_random_def randFloatSpread_def Let_def)

lemma new_spray_particle_eq:
  "new_spray_particle w =
     (\<lparr>baseTheta = rand_stream w (rand_pos w) * pi * 2,
       radius = 0.05 + rand_stream w (rand_pos w + 1) * 0.2,
       spray_speed = 0.6 + rand_stream w (rand_pos w + 2) * 0.4,
       height = rand_stream w (rand_pos w + 3) * 0.5,
       spray_jitter = rand_stream w (rand_pos w + 4) * 2\<rparr>,
      w\<lparr>rand_pos := rand_pos w + 5\<rparr>)"
  by (simp add: new_spray_particle_def Math_random_def Let_def eval_nat_numeral)

lemma create_droplets_agree:
  "\<forall>k<3 * n. rand_stream w1 (rand_pos w1 + k) = rand_stream w2 (rand_pos w2 + k)
     \<Longrightarrow> fst (create_droplets n w1) = fst (create_droplets n w2)"
proof (induction n arbitrary: w1 w2)
  case 0
  show ?case by simp
next
  case (Suc n)
  let ?v1 = "w1\<lparr>rand_pos := rand_pos w1 + 3\<rparr>" and ?v2 = "w2\<lparr>rand_pos := rand_pos w2 + 3\<rparr>"
  have hd: "fst (new_droplet w1) = fst (new_droplet w2)"
    using Suc.prems [rule_format, of 0] Suc.prems [rule_format, of 1] Suc.prems [rule_format, of 2]
    by (simp add: new_droplet_eq)
  have "\<forall>k<3 * n. rand_stream ?v1 (rand_pos ?v1 + k) = rand_stream ?v2 (rand_pos ?v2 + k)"
  proof (intro allI impI)
    fix k assume "k < 3 * n"
    then have "3 + k < 3 * Suc n" by simp
    from Suc.prems [rule_format, OF this] show
      "rand_stream ?v1 (rand_pos ?v1 + k) = rand_stream ?v2 (rand_pos ?v2 + k)"
      by (simp add: add.assoc)
  qed
  from Suc.IH [OF this] hd show ?case
    by (simp add: split_def Let_def new_droplet_eq)
qed

lemma create_spray_agree:
  "\<forall>k<5 * n. rand_stream w1 (rand_pos w1 + k) = rand_stream w2 (rand_pos w2 + k)
     \<Longrightarrow> fst (create_spray n w1) = fst (create_spray n w2)"
proof (induction n arbitrary: w1 w2)
  case 0
  show ?case by simp
next
  case (Suc n)
  let ?v1 = "w1\<lparr>rand_pos := rand_pos w1 + 5\<rparr>" and ?v2 = "w2\<lparr>rand_pos := rand_pos w2 + 5\<rparr>"
  have hd: "fst (new_spray_particle w1) = fst (new_spray_particle w2)"
    using Suc.prems [rule_format, of 0] Suc.prems [rule_format, of 1] Suc.prems [rule_format, of 2]
      Suc.prems [rule_format, of 3] Suc.prems [rule_format, of 4]
    by (simp add: new_spray_particle_eq)
  have "\<forall>k<5 * n. rand_stream ?v1 (rand_pos ?v1 + k) = rand_stream ?v2 (rand_pos ?v2 + k)"
  proof (intro allI impI)
    fix k assume "k < 5 * n"
    then have "5 + k < 5 * Suc n" by simp
    from Suc.prems [rule_format, OF this] show
      "rand_stream ?v1 (rand_pos ?v1 + k) = rand_stream ?v2 (rand_pos ?v2 + k)"
      by (simp add: add.assoc)
  qed
  from Suc.IH [OF this] hd show ?case
    by (simp add: split_def Let_def new_spray_particle_eq)
qed

lemma create_droplets_hd: "0 < n \<Longrightarrow> hd (fst (create_droplets n w)) = fst (new_droplet w)"
  by (cases n) (simp_all add: split_def Let_def)

lemma create_spray_hd: "0 < n \<Longrightarrow> hd (fst (create_spray n w)) = fst (new_spray_particle w)"
  by (cases n) (simp_all add: split_def Let_def)

text \<open>
  Claim C9, as stated, fails. Neither particle system takes a seed: the
  constants of the particles are drawn from \<open>Math.random\<close>. On a platform whose
  \<open>Math.random\<close> returns 0 and on one where it returns 1/2, the 900 droplets of
  the waterfall differ, and so do the 180 particles of the spray.
\<close>

theorem particles_depend_on_Math_random:
  "fst (create_droplets WATERFALL_PARTICLES world_a) \<noteq> fst (create_droplets WATERFALL_PARTICLES world_b)
   \<and> fst (create_spray 180 world_a) \<noteq> fst (create_spray 180 world_b)"
proof -
  have "offset (hd (fst (create_droplets WATERFALL_PARTICLES world_a))) = 0"
    by (simp add: create_droplets_hd WATERFALL_PARTICLES_def new_droplet_eq world_a_def)
  moreover have "offset (hd (fst (create_droplets WATERFALL_PARTICLES world_b))) = 1 / 2"
    by (simp add: create_droplets_hd WATERFALL_PARTICLES_def new_droplet_eq world_b_def)
  ultimately have "fst (create_droplets WATERFALL_PARTICLES world_a) \<noteq> fst (create_droplets WATERFALL_PARTICLES world_b)"
    by auto
  moreover have "radius (hd (fst (create_spray 180 world_a))) = 0.05"
    by (simp add: create_spray_hd new_spray_particle_eq world_a_def)
  moreover have "radius (hd (fst (create_spray 180 world_b))) = 0.15"
    by (simp add: create_spray_hd new_spray_particle_eq world_b_def)
  ultimately show ?thesis
    by auto
qed

text \<open>
  Claim C9, amended. The constants of the particles are determined by the numbers
  \<open>Math.random\<close> returns at construction: three per droplet and five per spray
  particle. Two runs that receive the same numbers have the same droplets, hence
  the same droplets after the same frames, and the same spray particles, hence
  the same phases at the same reading of the clock.
\<close>

theorem particle_constants_from_Math_random:
  "((\<forall>k<3 * n. rand_stream w1 (rand_pos w1 + k) = rand_stream w2 (rand_pos w2 + k)) \<longrightarrow>
      fst (create_droplets n w1) = fst (create_droplets n w2)
      \<and> run_frames fs (fst (create_droplets n w1)) = run_frames fs (fst (create_droplets n w2)))
   \<and> ((\<forall>k<5 * m. rand_stream w1 (rand_pos w1 + k) = rand_stream w2 (rand_pos w2 + k)) \<longrightarrow>
      fst (create_spray m w1) = fst (create_spray m w2)
      \<and> map (spray_phase now) (fst (create_spray m w1)) =
          map (spray_phase now) (fst (create_spray m w2)))"
  using create_droplets_agree [of n w1 w2] create_spray_agree [of m w1 w2]
  by simp

text \<open>
  \<open>world_c\<close> and \<open>world_d\<close> agree on six numbers: two droplets, or one spray
  particle, are the same in both.
\<close>

theorem particle_constants_witness:
  "fst (create_droplets 2 world_c) = fst (create_droplets 2 world_d)
   \<and> run_frames [(True, 1 / 20)] (fst (create_droplets 2 world_c)) =
       run_frames [(True, 1 / 20)] (fst (create_droplets 2 world_d))
   \<and> fst (create_spray 1 world_c) = fst (create_spray 1 world_d)"
proof -
  have a: "\<forall>k<3 * 2. rand_stream world_c (rand_pos world_c + k) = rand_stream world_d (rand_pos world_d + k)"
    by (simp add: world_c_def world_d_def)
  have b: "\<forall>k<5 * 1. rand_stream world_c (rand_pos world_c + k) = rand_stream world_d (rand_pos world_d + k)"
    by (simp add: world_c_def world_d_def)
  from particle_constants_from_Math_random [of 2 world_c world_d "[(True, 1 / 20)]" 1 0] a b
  show ?thesis
    by blast
qed

section \<open>The capture\<close>

lemma capture_resolved_iff:
  "fst (capture throws v) = Resolved \<longleftrightarrow>
     \<not> throws CallRender \<and> \<not> throws CallToDataURL \<and> \<not> throws CallDownload
     \<and> \<not> throws CallFinalRender"
  by (simp add: capture_def Let_def)

text \<open>
  Claim C2. A capture that resolves leaves the pixel ratio, the width and the
  height of the viewport, the aspect ratio of the camera and the display style
  of the canvas equal to the values they had when it started, for every
  starting view; the projection is the one computed from the restored aspect
  ratio.
\<close>

theorem capture_restores:
  assumes "fst (capture throws v) = Resolved"
  shows "pixelRatio (snd (capture throws v)) = pixelRatio v
    \<and> viewportWidth (snd (capture throws v)) = viewportWidth v
    \<and> viewportHeight (snd (capture throws v)) = viewportHeight v
    \<and> aspect (snd (capture throws v)) = aspect v
    \<and> styleWidth (snd (capture throws v)) = styleWidth v
    \<and> styleHeight (snd (capture throws v)) = styleHeight v
    \<and> projection (snd (capture throws v)) = aspect v"
proof -
  from assms have "\<not> throws CallRender" "\<not> throws CallToDataURL" "\<not> throws CallDownload"
    "\<not> throws CallFinalRender"
    by (simp_all add: capture_resolved_iff)
  then show ?thesis
    by (simp add: capture_def Let_def setPixelRatio_def setSize_def getPixelRatio_def getSize_def
        updateProjectionMatrix_def render_def)
qed

text \<open>
  The scenario of the specification: pixel ratio 2, viewport 800 by 600, aspect
  ratio 4/3, and no call throws.
\<close>

theorem capture_restores_witness:
  "fst (capture no_throw live_view) = Resolved
   \<and> pixelRatio (snd (capture no_throw live_view)) = 2
   \<and> viewportWidth (snd (capture no_throw live_view)) = 800
   \<and> viewportHeight (snd (capture no_throw live_view)) = 600
   \<and> aspect (snd (capture no_throw live_view)) = 4 / 3"
proof -
  have a: "fst (capture no_throw live_view) = Resolved"
    by (simp add: capture_resolved_iff no_throw_def)
  from capture_restores [OF a] a show ?thesis
    by (simp add: live_view_def)
qed

text \<open>
  Claim C1 says that the restore runs on every exit path of the capture, also
  when the encoding of the image throws. The body of \<open>capture\<close> has no \<open>try\<close>:
  when \<open>toDataURL\<close> throws, the promise is rejected after the resize and the
  first render, and the view keeps the pixel ratio 1, the size 3200 by 4000 and
  the aspect ratio 4/5 of the export. None of the calls of the restore was made.
\<close>

theorem capture_encoding_failure:
  "capture encode_throws live_view =
     (Rejected CallToDataURL,
      live_view\<lparr>pixelRatio := 1, viewportWidth := 3200, viewportHeight := 4000, aspect := 4 / 5, projection := 4 / 5,
        calls := [SetPixelRatio 1, SetSize 3200 4000, UpdateProjectionMatrix (4 / 5), Render]\<rparr>)"
  by (simp add: capture_def Let_def encode_throws_def setPixelRatio_def setSize_def
      getPixelRatio_def getSize_def updateProjectionMatrix_def render_def live_view_def
      EXPORT_WIDTH_def EXPORT_HEIGHT_def)

section \<open>The export handler\<close>

lemma encodings_capture:
  "encodings (snd (capture throws v)) =
     encodings v + (if throws CallRender \<or> throws CallToDataURL then 0 else 1)"
  by (simp add: capture_def Let_def setPixelRatio_def setSize_def
      getPixelRatio_def getSize_def updateProjectionMatrix_def render_def encodings_def)

lemma resizes_capture:
  "export_resizes (snd (capture no_throw v)) =
     export_resizes v + (if viewportWidth v = EXPORT_WIDTH \<and> viewportHeight v = EXPORT_HEIGHT then 2 else 1)"
  by (simp add: capture_def Let_def setPixelRatio_def setSize_def no_throw_def
      getPixelRatio_def getSize_def updateProjectionMatrix_def render_def export_resizes_def)

text \<open>
  Once the component has rendered with the flag set, the guard of the handler
  turns a second invocation into a no-op.
\<close>

lemma guard_after_render:
  "encodings (canvas (run [Invoke no_throw, Rerender, Invoke no_throw] mounted)) = 1"
  by (simp add: handleExport_def mounted_def split_def Let_def encodings_capture rerender_def)
     (simp add: no_throw_def live_view_def encodings_def)

text \<open>
  Claim C7 says that a second invocation of the export before the first has
  resolved is a no-op and that exactly one capture is executed. The guard of
  \<open>handleExport\<close> reads the value \<open>isExporting\<close> had at the last render, and
  \<open>setIsExporting(true)\<close> only queues an update. Two invocations of the handler
  of one render therefore both pass the guard: two captures are executed, one
  after the other, and both invocations are suspended at their \<open>await\<close>. One
  invocation alone executes one capture.
\<close>

theorem second_export_runs_capture_again:
  "encodings (canvas (run [Invoke no_throw, Invoke no_throw] mounted)) = 2
   \<and> export_resizes (canvas (run [Invoke no_throw, Invoke no_throw] mounted)) = 2
   \<and> awaiting (run [Invoke no_throw, Invoke no_throw] mounted) = [Resolved, Resolved]
   \<and> encodings (canvas (run [Invoke no_throw] mounted)) = 1"
  by (simp add: handleExport_def mounted_def split_def Let_def encodings_capture resizes_capture
      capture_resolved_iff)
     (simp add: no_throw_def live_view_def encodings_def export_resizes_def EXPORT_WIDTH_def capture_def Let_def
       setPixelRatio_def setSize_def getPixelRatio_def getSize_def updateProjectionMatrix_def render_def)

lemma step_flag:
  "awaiting c = [] \<longrightarrow> \<not> next_flag c \<Longrightarrow> awaiting (do_step s c) = [] \<longrightarrow> \<not> next_flag (do_step s c)"
proof (cases s)
  case (Invoke throws)
  assume "awaiting c = [] \<longrightarrow> \<not> next_flag c"
  then show ?thesis
    by (simp add: Invoke handleExport_def split_def Let_def)
next
  case Resume
  assume "awaiting c = [] \<longrightarrow> \<not> next_flag c"
  then show ?thesis
    by (cases "awaiting c") (simp_all add: Resume resume_def next_flag_def)
next
  case Rerender
  assume "awaiting c = [] \<longrightarrow> \<not> next_flag c"
  then show ?thesis
    by (cases "queued c") (simp_all add: Rerender rerender_def next_flag_def)
qed

lemma run_flag:
  "awaiting c = [] \<longrightarrow> \<not> next_flag c \<Longrightarrow> awaiting (run ss c) = [] \<longrightarrow> \<not> next_flag (run ss c)"
proof (induction ss arbitrary: c)
  case Nil
  then show ?case by simp
next
  case (Cons s ss)
  from Cons.IH [OF step_flag [OF Cons.prems]] show ?case
    by simp
qed

lemma step_captureRef: "captureRef (do_step s c) = captureRef c"
  by (cases s) (simp_all add: handleExport_def resume_def rerender_def split_def Let_def
      split: list.splits)

lemma run_captureRef: "captureRef (run ss c) = captureRef c"
  by (induction ss arbitrary: c) (simp_all add: step_captureRef)

lemma rerender_idle: "awaiting c = [] \<Longrightarrow> \<not> next_flag c \<Longrightarrow> idle (rerender c)"
  by (cases "queued c") (simp_all add: rerender_def idle_def next_flag_def)

lemma handleExport_idle:
  "idle c \<Longrightarrow> captureRef c \<Longrightarrow> awaiting (handleExport throws c) = [fst (capture throws (canvas c))]"
  by (simp add: idle_def handleExport_def split_def Let_def)

lemma rerender_frame: "canvas (rerender c) = canvas c \<and> captureRef (rerender c) = captureRef c"
  by (cases "queued c") (simp_all add: rerender_def)

text \<open>
  Claim C10. Start from an idle component and let it take any steps, with
  captures that resolve or throw. Whenever no invocation of the handler is
  suspended any more, the next render shows the component idle, and an export
  invoked then runs the capture.
\<close>

theorem export_returns_to_idle:
  assumes "idle c" and "awaiting (run ss c) = []"
  shows "idle (rerender (run ss c))
    \<and> (captureRef c \<longrightarrow>
         awaiting (handleExport throws (rerender (run ss c))) =
           [fst (capture throws (canvas (run ss c)))])"
proof -
  from assms(1) have "awaiting c = [] \<longrightarrow> \<not> next_flag c"
    by (simp add: idle_def next_flag_def)
  from run_flag [OF this] assms(2) have "\<not> next_flag (run ss c)"
    by simp
  from rerender_idle [OF assms(2) this] have i: "idle (rerender (run ss c))" .
  show ?thesis
    using i handleExport_idle [OF i, of throws]
    by (simp add: rerender_frame run_captureRef)
qed

text \<open>
  An export whose capture throws in \<open>toDataURL\<close>: after its continuation and a
  render the component is idle, and the next export runs a capture.
\<close>

theorem export_returns_to_idle_witness:
  "idle (rerender (run [Invoke encode_throws, Resume] mounted))
   \<and> awaiting (handleExport no_throw (rerender (run [Invoke encode_throws, Resume] mounted))) = [Resolved]
   \<and> awaiting (run [Invoke encode_throws] mounted) = [Rejected CallToDataURL]"
proof -
  have a: "idle mounted"
    by (simp add: idle_def mounted_def)
  have b: "awaiting (run [Invoke encode_throws, Resume] mounted) = []"
    by (simp add: handleExport_def resume_def mounted_def split_def Let_def)
  have c: "captureRef mounted"
    by (simp add: mounted_def)
  have d: "fst (capture no_throw v) = Resolved" for v
    by (simp add: capture_def Let_def no_throw_def)
  have e: "awaiting (run [Invoke encode_throws] mounted) = [Rejected CallToDataURL]"
    by (simp add: handleExport_def mounted_def split_def Let_def capture_def encode_throws_def)
  from export_returns_to_idle [OF a b, of no_throw] c d e show ?thesis
    by simp
qed

end
